theory Spec2Isabelle
  imports Main "HOL-Library.Sublist"
begin

section \<open>Data model (types.ts)\<close>

text \<open>
  An optional TypeScript field \<^verbatim>\<open>f?: string\<close> is a \<open>string option\<close>: \<open>None\<close> is
  \<^verbatim>\<open>undefined\<close>, \<open>Some s\<close> is the string \<open>s\<close> (possibly empty). The tri-state
  \<^verbatim>\<open>multiStep?: boolean\<close> is a \<open>bool option\<close>.
\<close>

record AuthConfig =
  loginUrl :: string
  email :: string
  password :: string
  preset :: "string option"
  emailSelector :: "string option"
  passwordSelector :: "string option"
  submitSelector :: "string option"
  successUrlPattern :: "string option"
  successSelector :: "string option"
  multiStep :: "bool option"
  continueSelector :: "string option"

record AuthPreset =
  loginPath :: string
  emailSelector :: string
  passwordSelector :: string
  submitSelector :: string
  successUrlPattern :: string
  multiStep :: bool
  continueSelector :: "string option"

text \<open>
  The object returned by \<^verbatim>\<open>resolveSelectors\<close>. Its TypeScript type declares
  \<^verbatim>\<open>emailSelector: string\<close> and so on, but the values are whatever the property
  reads produce at run time, so every field is optional here.
\<close>

record Selectors =
  emailSelector :: "string option"
  passwordSelector :: "string option"
  submitSelector :: "string option"
  successUrlPattern :: "string option"
  successSelector :: "string option"
  multiStep :: "bool option"
  continueSelector :: "string option"

section \<open>Preset registry (presets.ts)\<close>

text \<open>The own properties of the object literal \<^verbatim>\<open>PRESETS\<close>, in source order.\<close>

definition supabase :: AuthPreset where
  \<open>supabase = \<lparr>
     loginPath = ''/auth/login'',
     AuthPreset.emailSelector = ''input[type="email"], input#email'',
     AuthPreset.passwordSelector = ''input[type="password"], input#password'',
     AuthPreset.submitSelector = ''button[type="submit"]'',
     AuthPreset.successUrlPattern = ''/'',
     AuthPreset.multiStep = False,
     AuthPreset.continueSelector = None \<rparr>\<close>

definition clerk :: AuthPreset where
  \<open>clerk = \<lparr>
     loginPath = ''/sign-in'',
     AuthPreset.emailSelector = ''input[name="identifier"], input#identifier-field'',
     AuthPreset.passwordSelector = ''input[name="password"], input#password-field'',
     AuthPreset.submitSelector = ''button[type="submit"], button.cl-formButtonPrimary'',
     AuthPreset.successUrlPattern = ''/'',
     AuthPreset.multiStep = True,
     AuthPreset.continueSelector = Some ''button[type="submit"]'' \<rparr>\<close>

definition salesforce :: AuthPreset where
  \<open>salesforce = \<lparr>
     loginPath = ''/login'',
     AuthPreset.emailSelector = ''input#username'',
     AuthPreset.passwordSelector = ''input#password'',
     AuthPreset.submitSelector = ''input#Login'',
     AuthPreset.successUrlPattern = ''/home'',
     AuthPreset.multiStep = False,
     AuthPreset.continueSelector = None \<rparr>\<close>

definition generic :: AuthPreset where
  \<open>generic = \<lparr>
     loginPath = ''/login'',
     AuthPreset.emailSelector = ''input[type="email"], input[name="email"]'',
     AuthPreset.passwordSelector = ''input[type="password"], input[name="password"]'',
     AuthPreset.submitSelector = ''button[type="submit"]'',
     AuthPreset.successUrlPattern = ''/'',
     AuthPreset.multiStep = False,
     AuthPreset.continueSelector = None \<rparr>\<close>

definition PRESETS :: "(string \<times> AuthPreset) list" where
  "PRESETS = [(''supabase'', supabase), (''clerk'', clerk),
              (''salesforce'', salesforce), (''generic'', generic)]"

text \<open>
  \<^verbatim>\<open>PRESETS\<close> is an object literal, so its prototype is \<^verbatim>\<open>Object.prototype\<close> and a
  property read \<^verbatim>\<open>PRESETS[key]\<close> that finds no own property continues there. These
  are the property names of \<^verbatim>\<open>Object.prototype\<close>; each of them holds a function,
  except \<^verbatim>\<open>__proto__\<close>, whose getter returns \<^verbatim>\<open>Object.prototype\<close> itself.
\<close>

definition Object_prototype_keys :: "string list" where
  "Object_prototype_keys =
     [''constructor'', ''__defineGetter__'', ''__defineSetter__'', ''hasOwnProperty'',
      ''__lookupGetter__'', ''__lookupSetter__'', ''isPrototypeOf'',
      ''propertyIsEnumerable'', ''toString'', ''valueOf'', ''__proto__'',
      ''toLocaleString'']"

text \<open>
  What a read of \<^verbatim>\<open>PRESETS[key]\<close> can yield besides \<^verbatim>\<open>undefined\<close>: one of the
  four preset objects, or a value inherited from \<^verbatim>\<open>Object.prototype\<close>. Both kinds
  are objects, hence truthy.
\<close>

datatype js_object = Preset AuthPreset | Inherited

definition PRESETS_get :: "string \<Rightarrow> js_object option" where
  "PRESETS_get key =
     (case map_of PRESETS key of
        Some p \<Rightarrow> Some (Preset p)
      | None \<Rightarrow> if key \<in> set Object_prototype_keys then Some Inherited else None)"

text \<open>
  Property reads on the object bound to \<^verbatim>\<open>preset\<close> in \<^verbatim>\<open>resolveSelectors\<close>. An
  inherited value (a built-in function or \<^verbatim>\<open>Object.prototype\<close>) has none of the
  preset properties: each read is \<^verbatim>\<open>undefined\<close>.
\<close>

fun get_emailSelector :: "js_object \<Rightarrow> string option" where
  "get_emailSelector (Preset p) = Some (AuthPreset.emailSelector p)"
| "get_emailSelector Inherited = None"

fun get_passwordSelector :: "js_object \<Rightarrow> string option" where
  "get_passwordSelector (Preset p) = Some (AuthPreset.passwordSelector p)"
| "get_passwordSelector Inherited = None"

fun get_submitSelector :: "js_object \<Rightarrow> string option" where
  "get_submitSelector (Preset p) = Some (AuthPreset.submitSelector p)"
| "get_submitSelector Inherited = None"

fun get_successUrlPattern :: "js_object \<Rightarrow> string option" where
  "get_successUrlPattern (Preset p) = Some (AuthPreset.successUrlPattern p)"
| "get_successUrlPattern Inherited = None"

fun get_multiStep :: "js_object \<Rightarrow> bool option" where
  "get_multiStep (Preset p) = Some (AuthPreset.multiStep p)"
| "get_multiStep Inherited = None"

fun get_continueSelector :: "js_object \<Rightarrow> string option" where
  "get_continueSelector (Preset p) = AuthPreset.continueSelector p"
| "get_continueSelector Inherited = None"

section \<open>JavaScript operators on optional values\<close>

text \<open>A string is truthy unless it is empty; \<^verbatim>\<open>undefined\<close> is falsy.\<close>

definition truthy :: "string option \<Rightarrow> bool" where
  "truthy v = (case v of None \<Rightarrow> False | Some s \<Rightarrow> s \<noteq> [])"

text \<open>\<^verbatim>\<open>a || b\<close> on optional strings.\<close>

definition or_else :: "string option \<Rightarrow> string option \<Rightarrow> string option" where
  "or_else a b = (if truthy a then a else b)"

text \<open>\<^verbatim>\<open>a || b\<close> where \<open>b\<close> is a string literal.\<close>

definition or_string :: "string option \<Rightarrow> string \<Rightarrow> string" where
  "or_string a b = (case a of None \<Rightarrow> b | Some s \<Rightarrow> if s \<noteq> [] then s else b)"

text \<open>\<^verbatim>\<open>a ?? b\<close>: only \<^verbatim>\<open>undefined\<close> (and \<^verbatim>\<open>null\<close>) give way to \<open>b\<close>.\<close>

definition nullish_else :: "'a option \<Rightarrow> 'a option \<Rightarrow> 'a option" where
  "nullish_else a b = (case a of Some v \<Rightarrow> Some v | None \<Rightarrow> b)"

section \<open>Selector resolver (auth.ts, resolveSelectors)\<close>

text \<open>
  \<^verbatim>\<open>PRESETS[auth.preset || 'generic'] || PRESETS.generic\<close>: the key is
  \<^verbatim>\<open>'generic'\<close> when \<^verbatim>\<open>auth.preset\<close> is undefined or empty, and the generic preset
  stands in when the read yields \<^verbatim>\<open>undefined\<close>.
\<close>

definition lookup :: "string option \<Rightarrow> js_object" where
  "lookup name =
     (case PRESETS_get (or_string name ''generic'') of
        Some obj \<Rightarrow> obj
      | None \<Rightarrow> Preset generic)"

definition resolveSelectors :: "AuthConfig \<Rightarrow> Selectors" where
  "resolveSelectors auth =
     (let preset = lookup (AuthConfig.preset auth) in
      \<lparr> Selectors.emailSelector =
          or_else (AuthConfig.emailSelector auth) (get_emailSelector preset),
        Selectors.passwordSelector =
          or_else (AuthConfig.passwordSelector auth) (get_passwordSelector preset),
        Selectors.submitSelector =
          or_else (AuthConfig.submitSelector auth) (get_submitSelector preset),
        Selectors.successUrlPattern =
          or_else (AuthConfig.successUrlPattern auth) (get_successUrlPattern preset),
        Selectors.successSelector = AuthConfig.successSelector auth,
        Selectors.multiStep =
          nullish_else (AuthConfig.multiStep auth) (get_multiStep preset),
        Selectors.continueSelector =
          or_else (AuthConfig.continueSelector auth) (get_continueSelector preset) \<rparr>)"

section \<open>Page-automation driver\<close>

text \<open>
  The calls that \<^verbatim>\<open>authenticate\<close> and \<^verbatim>\<open>waitForLoginSuccess\<close> make on the
  Playwright page, with the arguments the source passes. Timeouts are in milliseconds.
  A selector argument is the value of a field of the resolved object, hence optional.
\<close>

datatype wait_until = NetworkIdle

datatype wait_state = Visible

datatype call =
    Goto string wait_until nat
  | WaitForSelector "string option" nat "wait_state option"
  | Fill "string option" string
  | Click "string option"
  | WaitForURL "string \<Rightarrow> bool" nat
  | WaitForTimeout nat

text \<open>
  The page is opaque: a call made in world \<open>w\<close> either resolves, leaving a new world,
  or rejects with an error. Nothing is assumed about either.
\<close>

type_synonym ('e, 'w) driver = "call \<Rightarrow> 'w \<Rightarrow> 'e + 'w"

text \<open>
  The state of one run of the flow: the calls made so far, each with its rejection if
  it rejected, and either the pending exception or the current world.
\<close>

type_synonym ('e, 'w) flow = "(call \<times> 'e option) list \<times> ('e + 'w)"

text \<open>
  \<^verbatim>\<open>await page.f(...)\<close>: with an exception pending the statement is not reached;
  otherwise the call is made and a rejection becomes the pending exception. The source
  has no \<^verbatim>\<open>try\<close>, so a pending exception is never cleared.
\<close>

fun await :: "('e, 'w) driver \<Rightarrow> ('e, 'w) flow \<Rightarrow> call \<Rightarrow> ('e, 'w) flow" where
  "await page (log, Inl e) c = (log, Inl e)"
| "await page (log, Inr w) c =
     (case page c w of
        Inl e \<Rightarrow> (log @ [(c, Some e)], Inl e)
      | Inr w' \<Rightarrow> (log @ [(c, None)], Inr w'))"

section \<open>Success detector (auth.ts, waitForLoginSuccess)\<close>

text \<open>\<^verbatim>\<open>s.includes(t)\<close>: \<open>t\<close> occurs in \<open>s\<close> as a contiguous run.\<close>

fun str_includes :: "string \<Rightarrow> string \<Rightarrow> bool" where
  "str_includes [] t = (t = [])"
| "str_includes (c # s) t = (prefix t (c # s) \<or> str_includes s t)"

text \<open>
  The arrow function handed to \<^verbatim>\<open>page.waitForURL\<close>, as a function of the captured
  \<^verbatim>\<open>sel.successUrlPattern\<close> (here \<open>pattern\<close>) and of \<^verbatim>\<open>url.pathname\<close>.
\<close>

definition urlPredicate :: "string \<Rightarrow> string \<Rightarrow> bool" where
  "urlPredicate pattern pathname =
     (if pattern = ''/'' then
        \<not> str_includes pathname ''/login'' \<and>
        \<not> str_includes pathname ''/sign-in'' \<and>
        \<not> str_includes pathname ''/auth/''
      else str_includes pathname pattern)"

text \<open>
  The second test, \<^verbatim>\<open>if (sel.successUrlPattern)\<close>, holds exactly for a non-empty
  string, which the \<open>case\<close> binds for the predicate.
\<close>

definition waitForLoginSuccess ::
    "('e, 'w) driver \<Rightarrow> Selectors \<Rightarrow> ('e, 'w) flow \<Rightarrow> ('e, 'w) flow" where
  "waitForLoginSuccess page sel st =
     (let timeout = 15000 in
      if truthy (Selectors.successSelector sel) then
        await page st (WaitForSelector (Selectors.successSelector sel) timeout None)
      else
        (case Selectors.successUrlPattern sel of
           Some (c # cs) \<Rightarrow> await page st (WaitForURL (urlPredicate (c # cs)) timeout)
         | _ \<Rightarrow> await page st (WaitForTimeout 5000)))"

section \<open>Login flow engine (auth.ts, authenticate)\<close>

text \<open>\<^verbatim>\<open>if (sel.multiStep)\<close>: \<^verbatim>\<open>undefined\<close> and \<^verbatim>\<open>false\<close> are falsy.\<close>

definition truthy_bool :: "bool option \<Rightarrow> bool" where
  "truthy_bool v = (case v of None \<Rightarrow> False | Some b \<Rightarrow> b)"

definition authenticate :: "('e, 'w) driver \<Rightarrow> AuthConfig \<Rightarrow> 'w \<Rightarrow> ('e, 'w) flow" where
  "authenticate page auth w =
     (let sel = resolveSelectors auth;
          s1 = await page ([], Inr w) (Goto (loginUrl auth) NetworkIdle 30000);
          s2 = await page s1 (WaitForSelector (Selectors.emailSelector sel) 10000 None);
          s3 = await page s2 (Fill (Selectors.emailSelector sel) (email auth));
          s4 = (if truthy_bool (Selectors.multiStep sel) then
                  let continueBtn =
                        or_else (Selectors.continueSelector sel) (Selectors.submitSelector sel);
                      s3a = await page s3 (Click continueBtn)
                  in await page s3a
                       (WaitForSelector (Selectors.passwordSelector sel) 10000 (Some Visible))
                else s3);
          s5 = await page s4 (Fill (Selectors.passwordSelector sel) (password auth));
          s6 = await page s5 (Click (Selectors.submitSelector sel))
      in waitForLoginSuccess page sel s6)"

section \<open>Vocabulary of the properties\<close>

text \<open>
  The merge rule in the specification's words: the override if it is a non-empty
  string, else the preset's default.
\<close>

definition override_or_default :: "string option \<Rightarrow> string option \<Rightarrow> string option" where
  "override_or_default a d = (case a of Some (c # cs) \<Rightarrow> Some (c # cs) | _ \<Rightarrow> d)"

definition no_overrides :: "AuthConfig \<Rightarrow> bool" where
  "no_overrides auth \<longleftrightarrow>
     AuthConfig.emailSelector auth = None \<and> AuthConfig.passwordSelector auth = None \<and>
     AuthConfig.submitSelector auth = None \<and> AuthConfig.successUrlPattern auth = None \<and>
     AuthConfig.successSelector auth = None \<and> AuthConfig.multiStep auth = None \<and>
     AuthConfig.continueSelector auth = None"

text \<open>The calls of a run, in the order they were made.\<close>

definition calls :: "('e, 'w) flow \<Rightarrow> call list" where
  "calls st = map fst (fst st)"

text \<open>The \<^verbatim>\<open>timeout\<close> option of a call, for the calls that take one.\<close>

fun call_timeout :: "call \<Rightarrow> nat option" where
  "call_timeout (Goto url wu t) = Some t"
| "call_timeout (WaitForSelector s t st) = Some t"
| "call_timeout (WaitForURL p t) = Some t"
| "call_timeout (Fill s v) = None"
| "call_timeout (Click s) = None"
| "call_timeout (WaitForTimeout d) = None"



subsection \<open>Drivers and configurations for the concrete runs\<close>

text \<open>A configuration that names a preset and overrides nothing.\<close>

definition bare :: "string option \<Rightarrow> AuthConfig" where
  "bare name =
     \<lparr> loginUrl = ''https://app.example.com/login'', email = ''user@example.com'',
       password = ''secret'', preset = name,
       AuthConfig.emailSelector = None, AuthConfig.passwordSelector = None,
       AuthConfig.submitSelector = None, AuthConfig.successUrlPattern = None,
       AuthConfig.successSelector = None, AuthConfig.multiStep = None,
       AuthConfig.continueSelector = None \<rparr>"

text \<open>A page on which every call resolves and nothing changes.\<close>

definition accept :: "('e, 'w) driver" where
  "accept c w = Inr w"



text \<open>The generic preset with \<^verbatim>\<open>successSelector: ''\<close>.\<close>

definition empty_successSelector :: AuthConfig where
  "empty_successSelector = (bare (Some ''generic''))\<lparr>AuthConfig.successSelector := Some []\<rparr>"

text \<open>A resolved object with both a success selector and a success URL pattern.\<close>

definition both_set :: Selectors where
  "both_set =
     \<lparr> Selectors.emailSelector = Some ''#email'', Selectors.passwordSelector = Some ''#password'',
       Selectors.submitSelector = Some ''#submit'', Selectors.successUrlPattern = Some ''/home'',
       Selectors.successSelector = Some ''#app'', Selectors.multiStep = Some False,
       Selectors.continueSelector = None \<rparr>"


text \<open>
  The preset name \<^verbatim>\<open>constructor\<close> with the three form selectors overridden, so that
  the flow has a selector for every field it touches.
\<close>

definition inherited_preset :: AuthConfig where
  "inherited_preset =
     (bare (Some ''constructor''))
       \<lparr> AuthConfig.emailSelector := Some ''#email'',
         AuthConfig.passwordSelector := Some ''#password'',
         AuthConfig.submitSelector := Some ''#submit'' \<rparr>"

text \<open>
  The preset name \<^verbatim>\<open>toString\<close> with the email selector overridden and nothing else.
\<close>

definition inherited_with_override :: AuthConfig where
  "inherited_with_override =
     (bare (Some ''toString''))\<lparr>AuthConfig.emailSelector := Some ''#user''\<rparr>"

text \<open>A resolved object with neither a success selector nor a success URL pattern.\<close>

definition no_success_check :: Selectors where
  "no_success_check =
     \<lparr> Selectors.emailSelector = Some ''#email'', Selectors.passwordSelector = Some ''#password'',
       Selectors.submitSelector = Some ''#submit'', Selectors.successUrlPattern = None,
       Selectors.successSelector = None, Selectors.multiStep = Some False,
       Selectors.continueSelector = None \<rparr>"

section \<open>Preset lookup\<close>

lemma lookup_own: "(name, p) \<in> set PRESETS \<Longrightarrow> lookup (Some name) = Preset p"
  by (auto simp: PRESETS_def lookup_def PRESETS_get_def or_string_def)

lemma lookup_absent: "lookup None = Preset generic" "lookup (Some []) = Preset generic"
  by (simp_all add: PRESETS_def lookup_def PRESETS_get_def or_string_def)

text \<open>
  A name that is neither a key of \<^verbatim>\<open>PRESETS\<close> nor a property of
  \<^verbatim>\<open>Object.prototype\<close> resolves to the generic preset.
\<close>

lemma lookup_unknown:
  "name \<notin> set Object_prototype_keys \<Longrightarrow> name \<notin> fst ` set PRESETS \<Longrightarrow>
   lookup (Some name) = Preset generic"
  by (auto simp: lookup_def PRESETS_get_def or_string_def map_of_eq_None_iff[THEN iffD2]
        PRESETS_def split: option.splits)

lemma lookup_fallback:
  assumes "name = None \<or> name = Some [] \<or>
           (\<exists>n. name = Some n \<and> n \<notin> fst ` set PRESETS \<and> n \<notin> set Object_prototype_keys)"
  shows "lookup name = Preset generic"
  using assms lookup_absent lookup_unknown by auto


lemma lookup_cases:
  "lookup name \<in> {Preset supabase, Preset clerk, Preset salesforce, Preset generic, Inherited}"
  by (auto simp: lookup_def PRESETS_get_def PRESETS_def split: option.splits if_splits)

text \<open>The inherited object is chosen exactly for the property names of \<^verbatim>\<open>Object.prototype\<close>.\<close>

lemma lookup_Inherited:
  "lookup name = Inherited \<longleftrightarrow> (\<exists>k. name = Some k \<and> k \<in> set Object_prototype_keys)"
  by (cases name)
     (auto simp: lookup_def PRESETS_get_def or_string_def PRESETS_def Object_prototype_keys_def
           split: option.splits if_splits)

lemma lookup_generic: "lookup (Some ''generic'') = Preset generic"
  by (rule lookup_own) (simp add: PRESETS_def)

section \<open>Selector resolution\<close>

lemma or_else_override: "or_else a d = override_or_default a d"
  by (simp add: or_else_def truthy_def override_or_default_def split: option.splits list.splits)

text \<open>
  Field by field the resolver returns the override when it is a non-empty string and
  otherwise what the property read on the chosen object gives; with one of the four
  presets named and no override, that is the preset's defaults.
\<close>

lemma resolveSelectors_fieldwise:
  "Selectors.emailSelector (resolveSelectors auth) =
     override_or_default (AuthConfig.emailSelector auth)
       (get_emailSelector (lookup (preset auth))) \<and>
   Selectors.passwordSelector (resolveSelectors auth) =
     override_or_default (AuthConfig.passwordSelector auth)
       (get_passwordSelector (lookup (preset auth))) \<and>
   Selectors.submitSelector (resolveSelectors auth) =
     override_or_default (AuthConfig.submitSelector auth)
       (get_submitSelector (lookup (preset auth))) \<and>
   Selectors.continueSelector (resolveSelectors auth) =
     override_or_default (AuthConfig.continueSelector auth)
       (get_continueSelector (lookup (preset auth))) \<and>
   Selectors.successUrlPattern (resolveSelectors auth) =
     override_or_default (AuthConfig.successUrlPattern auth)
       (get_successUrlPattern (lookup (preset auth))) \<and>
   ((name, p) \<in> set PRESETS \<and> preset auth = Some name \<and> no_overrides auth \<longrightarrow>
      resolveSelectors auth =
        \<lparr> Selectors.emailSelector = Some (AuthPreset.emailSelector p),
          Selectors.passwordSelector = Some (AuthPreset.passwordSelector p),
          Selectors.submitSelector = Some (AuthPreset.submitSelector p),
          Selectors.successUrlPattern = Some (AuthPreset.successUrlPattern p),
          Selectors.successSelector = None,
          Selectors.multiStep = Some (AuthPreset.multiStep p),
          Selectors.continueSelector = AuthPreset.continueSelector p \<rparr>)"
proof -
  have own: "resolveSelectors auth =
        \<lparr> Selectors.emailSelector = Some (AuthPreset.emailSelector p),
          Selectors.passwordSelector = Some (AuthPreset.passwordSelector p),
          Selectors.submitSelector = Some (AuthPreset.submitSelector p),
          Selectors.successUrlPattern = Some (AuthPreset.successUrlPattern p),
          Selectors.successSelector = None,
          Selectors.multiStep = Some (AuthPreset.multiStep p),
          Selectors.continueSelector = AuthPreset.continueSelector p \<rparr>"
    if "(name, p) \<in> set PRESETS" "preset auth = Some name" "no_overrides auth"
    using that lookup_own[of name p]
    by (simp add: resolveSelectors_def no_overrides_def or_else_def truthy_def nullish_else_def)
  show ?thesis
    using own by (simp add: resolveSelectors_def Let_def or_else_override)
qed

text \<open>
  With a preset object chosen every default is that preset's value.
\<close>

lemma resolveSelectors_chosen:
  assumes "lookup (preset auth) = Preset p"
  shows
  "resolveSelectors auth =
     \<lparr> Selectors.emailSelector =
         override_or_default (AuthConfig.emailSelector auth) (Some (AuthPreset.emailSelector p)),
       Selectors.passwordSelector =
         override_or_default (AuthConfig.passwordSelector auth)
           (Some (AuthPreset.passwordSelector p)),
       Selectors.submitSelector =
         override_or_default (AuthConfig.submitSelector auth) (Some (AuthPreset.submitSelector p)),
       Selectors.successUrlPattern =
         override_or_default (AuthConfig.successUrlPattern auth)
           (Some (AuthPreset.successUrlPattern p)),
       Selectors.successSelector = AuthConfig.successSelector auth,
       Selectors.multiStep =
         (case AuthConfig.multiStep auth of Some b \<Rightarrow> Some b | None \<Rightarrow> Some (AuthPreset.multiStep p)),
       Selectors.continueSelector =
         override_or_default (AuthConfig.continueSelector auth) (AuthPreset.continueSelector p) \<rparr>"
  using assms
  by (simp add: resolveSelectors_def or_else_override nullish_else_def split: option.splits)

text \<open>
  So the merge rule holds against the table for a configuration that names one of the
  four presets, and against the generic preset for one whose preset is absent, empty
  or a name that is neither a key nor a property name of \<^verbatim>\<open>Object.prototype\<close>.
\<close>

lemma resolveSelectors_named:
  assumes "(name, p) \<in> set PRESETS" and "preset auth = Some name"
  shows
  "Selectors.emailSelector (resolveSelectors auth) =
     override_or_default (AuthConfig.emailSelector auth) (Some (AuthPreset.emailSelector p)) \<and>
   Selectors.passwordSelector (resolveSelectors auth) =
     override_or_default (AuthConfig.passwordSelector auth)
       (Some (AuthPreset.passwordSelector p)) \<and>
   Selectors.submitSelector (resolveSelectors auth) =
     override_or_default (AuthConfig.submitSelector auth) (Some (AuthPreset.submitSelector p)) \<and>
   Selectors.continueSelector (resolveSelectors auth) =
     override_or_default (AuthConfig.continueSelector auth) (AuthPreset.continueSelector p) \<and>
   Selectors.successUrlPattern (resolveSelectors auth) =
     override_or_default (AuthConfig.successUrlPattern auth)
       (Some (AuthPreset.successUrlPattern p))"
proof -
  have "lookup (preset auth) = Preset p"
    using assms lookup_own [of name p] by simp
  then show ?thesis
    by (simp add: resolveSelectors_chosen)
qed

lemma resolveSelectors_fallback:
  assumes "preset auth = None \<or> preset auth = Some [] \<or>
           (\<exists>n. preset auth = Some n \<and> n \<notin> fst ` set PRESETS \<and>
                n \<notin> set Object_prototype_keys)"
  shows
  "Selectors.emailSelector (resolveSelectors auth) =
     override_or_default (AuthConfig.emailSelector auth)
       (Some (AuthPreset.emailSelector generic)) \<and>
   Selectors.passwordSelector (resolveSelectors auth) =
     override_or_default (AuthConfig.passwordSelector auth)
       (Some (AuthPreset.passwordSelector generic)) \<and>
   Selectors.submitSelector (resolveSelectors auth) =
     override_or_default (AuthConfig.submitSelector auth)
       (Some (AuthPreset.submitSelector generic)) \<and>
   Selectors.continueSelector (resolveSelectors auth) =
     override_or_default (AuthConfig.continueSelector auth)
       (AuthPreset.continueSelector generic) \<and>
   Selectors.successUrlPattern (resolveSelectors auth) =
     override_or_default (AuthConfig.successUrlPattern auth)
       (Some (AuthPreset.successUrlPattern generic))"
proof -
  have "lookup (preset auth) = Preset generic"
    using assms by (rule lookup_fallback)
  then show ?thesis
    by (simp add: resolveSelectors_chosen)
qed

text \<open>
  C1, at the preset name \<^verbatim>\<open>toString\<close> with only the email selector overridden. The
  override is returned verbatim, but for the fields without an override the resolver
  returns undefined, which is no preset's default: the read \<^verbatim>\<open>PRESETS['toString']\<close>
  finds the inherited function, so the generic preset, whose password selector the
  same configuration gets under the name \<^verbatim>\<open>generic\<close>, does not stand in.
\<close>

theorem default_undefined_for_inherited_name:
  "Selectors.emailSelector (resolveSelectors inherited_with_override) = Some ''#user'' \<and>
   Selectors.passwordSelector (resolveSelectors inherited_with_override) = None \<and>
   Selectors.submitSelector (resolveSelectors inherited_with_override) = None \<and>
   Selectors.continueSelector (resolveSelectors inherited_with_override) = None \<and>
   Selectors.successUrlPattern (resolveSelectors inherited_with_override) = None \<and>
   Selectors.passwordSelector
     (resolveSelectors (inherited_with_override\<lparr>preset := Some ''generic''\<rparr>)) =
     Some (AuthPreset.passwordSelector generic)"
proof -
  have a: "lookup (Some ''toString'') = Inherited"
    by (simp add: PRESETS_def lookup_def PRESETS_get_def or_string_def Object_prototype_keys_def)
  show ?thesis
    by (simp add: a lookup_generic resolveSelectors_def inherited_with_override_def bare_def
          or_else_def truthy_def)
qed

text \<open>
  C2, at the preset name \<^verbatim>\<open>constructor\<close>. The name is none of the four keys, yet
  the read \<^verbatim>\<open>PRESETS['constructor']\<close> finds the inherited \<^verbatim>\<open>Object\<close> function,
  which is truthy, so the generic preset does not stand in: every preset default is
  undefined, and the result differs from the one for the generic preset.
\<close>

theorem preset_constructor_not_generic:
  "lookup (Some ''constructor'') = Inherited \<and>
   resolveSelectors (bare (Some ''constructor'')) =
     \<lparr> Selectors.emailSelector = None, Selectors.passwordSelector = None,
       Selectors.submitSelector = None, Selectors.successUrlPattern = None,
       Selectors.successSelector = None, Selectors.multiStep = None,
       Selectors.continueSelector = None \<rparr> \<and>
   resolveSelectors (bare (Some ''constructor'')) \<noteq> resolveSelectors (bare (Some ''generic''))"
proof -
  have a: "lookup (Some ''constructor'') = Inherited"
    by (simp add: PRESETS_def lookup_def PRESETS_get_def or_string_def Object_prototype_keys_def)
  have b: "lookup (Some ''generic'') = Preset generic"
    by (rule lookup_own) (simp add: PRESETS_def)
  show ?thesis
    by (simp add: a b resolveSelectors_def bare_def or_else_def truthy_def nullish_else_def)
qed



text \<open>
  What remains of the fallback: an absent or empty preset name, and a name that is
  neither a key of \<^verbatim>\<open>PRESETS\<close> nor a property name of \<^verbatim>\<open>Object.prototype\<close>,
  resolve as the generic preset does.
\<close>

lemma resolveSelectors_unknown_preset:
  assumes "preset auth = None \<or> preset auth = Some [] \<or>
           (\<exists>name. preset auth = Some name \<and> name \<notin> set Object_prototype_keys \<and>
                   name \<notin> fst ` set PRESETS)"
  shows "resolveSelectors auth = resolveSelectors (auth\<lparr>preset := Some ''generic''\<rparr>)"
proof -
  have "lookup (preset auth) = Preset generic"
    using assms lookup_absent lookup_unknown by auto
  then show ?thesis
    by (simp add: resolveSelectors_def lookup_generic)
qed

text \<open>A resolved continue selector is never the empty string.\<close>

lemma get_continueSelector_lookup: "get_continueSelector (lookup name) \<noteq> Some []"
  using lookup_cases[of name] by (auto simp: supabase_def clerk_def salesforce_def generic_def)

lemma continueSelector_resolved: "Selectors.continueSelector (resolveSelectors auth) \<noteq> Some []"
  using get_continueSelector_lookup[of "AuthConfig.preset auth"]
  by (auto simp: resolveSelectors_def Let_def or_else_def truthy_def split: option.splits)

lemma continueBtn:
  "or_else (Selectors.continueSelector (resolveSelectors auth)) d =
     (case Selectors.continueSelector (resolveSelectors auth) of Some c \<Rightarrow> Some c | None \<Rightarrow> d)"
  using continueSelector_resolved[of auth]
  by (auto simp: or_else_def truthy_def split: option.splits)

text \<open>
  With a preset object chosen, that is for every preset name that is not a property
  name of \<^verbatim>\<open>Object.prototype\<close>, the resolved URL pattern is a non-empty string.
\<close>

lemma successUrlPattern_resolved:
  "lookup (preset auth) \<noteq> Inherited \<Longrightarrow>
   truthy (Selectors.successUrlPattern (resolveSelectors auth))"
  using lookup_cases [of "preset auth"]
  by (auto simp: resolveSelectors_def Let_def or_else_def truthy_def supabase_def clerk_def
        salesforce_def generic_def)

subsection \<open>The concrete configurations, resolved\<close>


lemma resolve_clerk:
  \<open>resolveSelectors (bare (Some ''clerk'')) =
     \<lparr> Selectors.emailSelector = Some ''input[name="identifier"], input#identifier-field'',
       Selectors.passwordSelector = Some ''input[name="password"], input#password-field'',
       Selectors.submitSelector = Some ''button[type="submit"], button.cl-formButtonPrimary'',
       Selectors.successUrlPattern = Some ''/'',
       Selectors.successSelector = None,
       Selectors.multiStep = Some True,
       Selectors.continueSelector = Some ''button[type="submit"]'' \<rparr>\<close>
proof -
  have "lookup (Some ''clerk'') = Preset clerk"
    by (rule lookup_own) (simp add: PRESETS_def)
  then show ?thesis
    by (simp add: resolveSelectors_def bare_def or_else_def truthy_def nullish_else_def
          clerk_def)
qed


lemma resolve_inherited_preset:
  "resolveSelectors inherited_preset =
     \<lparr> Selectors.emailSelector = Some ''#email'', Selectors.passwordSelector = Some ''#password'',
       Selectors.submitSelector = Some ''#submit'', Selectors.successUrlPattern = None,
       Selectors.successSelector = None, Selectors.multiStep = None,
       Selectors.continueSelector = None \<rparr>"
proof -
  have "lookup (Some ''constructor'') = Inherited"
    by (simp add: PRESETS_def lookup_def PRESETS_get_def or_string_def Object_prototype_keys_def)
  then show ?thesis
    by (simp add: resolveSelectors_def inherited_preset_def bare_def or_else_def truthy_def
          nullish_else_def)
qed

section \<open>Sequences of awaited calls\<close>

text \<open>With an exception pending no further call is made.\<close>

lemma await_pending: "foldl (await page) (log, Inl e) cs = (log, Inl e)"
  by (induction cs) simp_all

lemma calls_await_Inr: "calls (await page (log, Inr w) c) = calls (log, Inr w) @ [c]"
  by (simp add: calls_def split: sum.splits)

lemma calls_fresh_await: "calls (await page ([], Inr w) c) = [c]"
  by (simp add: calls_def split: sum.splits)

text \<open>The calls made are an initial segment of the calls written, and all of them when
  the run ends with no exception.\<close>

lemma calls_foldl_prefix: "prefix (calls (foldl (await page) st cs)) (calls st @ cs)"
proof (induction cs arbitrary: st)
  case Nil
  then show ?case by simp
next
  case (Cons c cs)
  obtain log r where st: "st = (log, r)" by (cases st)
  show ?case
  proof (cases r)
    case (Inl e)
    then show ?thesis by (simp add: st await_pending)
  next
    case (Inr w)
    have step: "calls (await page st c) = calls st @ [c]"
      unfolding st Inr by (rule calls_await_Inr)
    have "prefix (calls (foldl (await page) (await page st c) cs)) (calls (await page st c) @ cs)"
      by (rule Cons.IH)
    then show ?thesis by (simp add: step)
  qed
qed

lemma calls_foldl_success:
  "snd (foldl (await page) st cs) = Inr w' \<Longrightarrow> calls (foldl (await page) st cs) = calls st @ cs"
proof (induction cs arbitrary: st)
  case Nil
  then show ?case by simp
next
  case (Cons c cs)
  obtain log r where st: "st = (log, r)" by (cases st)
  show ?case
  proof (cases r)
    case (Inl e)
    with Cons.prems show ?thesis by (simp add: st await_pending)
  next
    case (Inr w)
    from Cons.prems have "snd (foldl (await page) (await page st c) cs) = Inr w'" by simp
    then have "calls (foldl (await page) (await page st c) cs) = calls (await page st c) @ cs"
      by (rule Cons.IH)
    moreover have "calls (await page st c) = calls st @ [c]"
      unfolding st Inr by (rule calls_await_Inr)
    ultimately show ?thesis by simp
  qed
qed



lemma accept_foldl: "snd (foldl (await accept) (log, Inr w) cs) = Inr w"
  by (induction cs arbitrary: log) (simp_all add: accept_def)

section \<open>Success detection\<close>

text \<open>The detector awaits one call, chosen from the resolved object alone.\<close>

lemma detector_fold:
  "waitForLoginSuccess page sel st = foldl (await page) st
     [if truthy (Selectors.successSelector sel) then WaitForSelector (Selectors.successSelector sel) 15000 None
      else if truthy (Selectors.successUrlPattern sel) then
        WaitForURL (urlPredicate (or_string (Selectors.successUrlPattern sel) [])) 15000
      else WaitForTimeout 5000]"
  by (simp add: waitForLoginSuccess_def truthy_def or_string_def split: option.splits list.splits)


text \<open>
  C4 as stated fails at a success selector that is set to the empty string: the
  resolver passes it through, the detector's test is on truthiness, and the URL
  strategy runs.
\<close>

theorem detector_priority_counterexample:
  "Selectors.successSelector (resolveSelectors empty_successSelector) = Some [] \<and>
   Selectors.successUrlPattern (resolveSelectors empty_successSelector) = Some ''/'' \<and>
   calls (waitForLoginSuccess (accept :: (unit, unit) driver)
            (resolveSelectors empty_successSelector) ([], Inr ())) =
     [WaitForURL (urlPredicate ''/'') 15000]"
proof -
  have "lookup (Some ''generic'') = Preset generic"
    by (rule lookup_own) (simp add: PRESETS_def)
  then have "resolveSelectors empty_successSelector =
     \<lparr> Selectors.emailSelector = Some (AuthPreset.emailSelector generic),
       Selectors.passwordSelector = Some (AuthPreset.passwordSelector generic),
       Selectors.submitSelector = Some (AuthPreset.submitSelector generic),
       Selectors.successUrlPattern = Some ''/'',
       Selectors.successSelector = Some [],
       Selectors.multiStep = Some False,
       Selectors.continueSelector = None \<rparr>"
    by (simp add: resolveSelectors_def empty_successSelector_def bare_def or_else_def truthy_def
          nullish_else_def generic_def)
  then show ?thesis
    by (simp add: waitForLoginSuccess_def truthy_def accept_def calls_def)
qed

text \<open>
  C4, amended. From a state with no exception pending the detector makes exactly one
  call. With a non-empty success selector it is the wait for that selector, whatever
  the URL pattern is. The wait for the URL predicate is made exactly when the success
  selector is undefined or empty and the URL pattern is a non-empty string. Otherwise
  it is the five-second sleep.
\<close>

theorem detector_priority:
  "(Selectors.successSelector sel = Some s \<and> s \<noteq> [] \<longrightarrow>
      calls (waitForLoginSuccess page sel ([], Inr w)) = [WaitForSelector (Some s) 15000 None]) \<and>
   ((Selectors.successSelector sel = None \<or> Selectors.successSelector sel = Some []) \<and>
    Selectors.successUrlPattern sel = Some p \<and> p \<noteq> [] \<longrightarrow>
      calls (waitForLoginSuccess page sel ([], Inr w)) = [WaitForURL (urlPredicate p) 15000]) \<and>
   ((Selectors.successSelector sel = None \<or> Selectors.successSelector sel = Some []) \<and>
    (Selectors.successUrlPattern sel = None \<or> Selectors.successUrlPattern sel = Some []) \<longrightarrow>
      calls (waitForLoginSuccess page sel ([], Inr w)) = [WaitForTimeout 5000]) \<and>
   length (calls (waitForLoginSuccess page sel ([], Inr w))) = 1 \<and>
   ((\<exists>q t. WaitForURL q t \<in> set (calls (waitForLoginSuccess page sel ([], Inr w)))) \<longleftrightarrow>
    (Selectors.successSelector sel = None \<or> Selectors.successSelector sel = Some []) \<and>
    (\<exists>p. Selectors.successUrlPattern sel = Some p \<and> p \<noteq> []))"
  by (auto simp: waitForLoginSuccess_def truthy_def calls_fresh_await
           simp del: await.simps split: option.splits list.splits)

text \<open>With both set to non-empty strings only the selector is waited for.\<close>

theorem detector_priority_witness:
  "Selectors.successSelector both_set = Some ''#app'' \<and> ''#app'' \<noteq> [] \<and>
   Selectors.successUrlPattern both_set = Some ''/home'' \<and>
   calls (waitForLoginSuccess (accept :: (unit, unit) driver) both_set ([], Inr ())) =
     [WaitForSelector (Some ''#app'') 15000 None]"
  using detector_priority [of both_set "''#app''" "accept :: (unit, unit) driver" "()"]
  by (simp add: both_set_def)

lemma str_includes_sublist: "str_includes s t \<longleftrightarrow> sublist t s"
  by (induction s) (simp_all add: sublist_Cons_right)

lemma str_includes_iff: "str_includes s t \<longleftrightarrow> (\<exists>ps ss. s = ps @ t @ ss)"
  by (simp add: str_includes_sublist sublist_def)

text \<open>
  C5. For the pattern \<^verbatim>\<open>/\<close> a path satisfies the URL predicate iff none of
  \<^verbatim>\<open>/login\<close>, \<^verbatim>\<open>/sign-in\<close>, \<^verbatim>\<open>/auth/\<close> occurs in it; for any other pattern, iff the
  pattern occurs in it. So for \<^verbatim>\<open>/\<close> the path \<^verbatim>\<open>/dashboard\<close> succeeds and
  \<^verbatim>\<open>/auth/login\<close> does not, and for \<^verbatim>\<open>/home\<close> the path \<^verbatim>\<open>/org/home\<close> succeeds and
  \<^verbatim>\<open>/dashboard\<close> does not.
\<close>

theorem urlPredicate_heuristic:
  "(urlPredicate ''/'' path \<longleftrightarrow>
      \<not> (\<exists>ps ss. path = ps @ ''/login'' @ ss) \<and>
      \<not> (\<exists>ps ss. path = ps @ ''/sign-in'' @ ss) \<and>
      \<not> (\<exists>ps ss. path = ps @ ''/auth/'' @ ss)) \<and>
   (pattern \<noteq> ''/'' \<longrightarrow>
      (urlPredicate pattern path \<longleftrightarrow> (\<exists>ps ss. path = ps @ pattern @ ss))) \<and>
   urlPredicate ''/'' ''/dashboard'' \<and> \<not> urlPredicate ''/'' ''/auth/login'' \<and>
   urlPredicate ''/home'' ''/org/home'' \<and> \<not> urlPredicate ''/home'' ''/dashboard''"
proof -
  have general: "urlPredicate ''/'' path \<longleftrightarrow>
      \<not> (\<exists>ps ss. path = ps @ ''/login'' @ ss) \<and>
      \<not> (\<exists>ps ss. path = ps @ ''/sign-in'' @ ss) \<and>
      \<not> (\<exists>ps ss. path = ps @ ''/auth/'' @ ss)"
    unfolding urlPredicate_def str_includes_iff by simp
  have other: "urlPredicate pattern path \<longleftrightarrow> (\<exists>ps ss. path = ps @ pattern @ ss)"
    if "pattern \<noteq> ''/''"
    using that unfolding urlPredicate_def str_includes_iff by simp
  have examples: "urlPredicate ''/'' ''/dashboard''" "\<not> urlPredicate ''/'' ''/auth/login''"
    "urlPredicate ''/home'' ''/org/home''" "\<not> urlPredicate ''/home'' ''/dashboard''"
    by (simp_all add: urlPredicate_def)
  show ?thesis
    using general other examples by blast
qed

text \<open>The pattern \<^verbatim>\<open>/home\<close> also accepts \<^verbatim>\<open>/home-office/dashboard\<close>.\<close>

theorem urlPredicate_heuristic_witness:
  "''/home'' \<noteq> ''/'' \<and>
   (urlPredicate ''/home'' ''/home-office/dashboard'' \<longleftrightarrow>
      (\<exists>ps ss. ''/home-office/dashboard'' = ps @ ''/home'' @ ss)) \<and>
   urlPredicate ''/home'' ''/home-office/dashboard''"
  using urlPredicate_heuristic [of "''/home-office/dashboard''" "''/home''"]
  by (simp add: urlPredicate_def)

text \<open>
  C7. With neither a success selector nor a success URL pattern the detector makes one
  call, the five-second sleep, and nothing else: no selector is waited for and no URL
  is examined. Its outcome is the sleep's, so it reports success as soon as the sleep
  returns, in whatever state the page is.
\<close>

theorem fallback_sleep:
  "Selectors.successSelector sel = None \<and> Selectors.successUrlPattern sel = None \<longrightarrow>
     calls (waitForLoginSuccess page sel ([], Inr w)) = [WaitForTimeout 5000] \<and>
     (\<forall>w'. page (WaitForTimeout 5000) w = Inr w' \<longrightarrow>
        waitForLoginSuccess page sel ([], Inr w) = ([(WaitForTimeout 5000, None)], Inr w'))"
  by (simp add: waitForLoginSuccess_def truthy_def calls_def split: sum.splits)

text \<open>On a page where every call resolves the fallback reports success.\<close>

theorem fallback_sleep_witness:
  "Selectors.successSelector no_success_check = None \<and>
   Selectors.successUrlPattern no_success_check = None \<and>
   waitForLoginSuccess (accept :: (unit, unit) driver) no_success_check ([], Inr ()) =
     ([(WaitForTimeout 5000, None)], Inr ())"
  using fallback_sleep [of no_success_check "accept :: (unit, unit) driver" "()"]
  by (simp add: no_success_check_def accept_def)

section \<open>The login flow\<close>

text \<open>
  The flow is a fixed sequence of awaited calls, determined by the configuration
  alone, followed by the detector.
\<close>

lemma authenticate_fold:
  "authenticate page auth w =
     (let sel = resolveSelectors auth in
      waitForLoginSuccess page sel (foldl (await page) ([], Inr w)
        ([Goto (loginUrl auth) NetworkIdle 30000,
          WaitForSelector (Selectors.emailSelector sel) 10000 None,
          Fill (Selectors.emailSelector sel) (email auth)] @
         (if Selectors.multiStep sel = Some True then
            [Click (case Selectors.continueSelector sel of Some c \<Rightarrow> Some c
                    | None \<Rightarrow> Selectors.submitSelector sel),
             WaitForSelector (Selectors.passwordSelector sel) 10000 (Some Visible)]
          else []) @
         [Fill (Selectors.passwordSelector sel) (password auth),
          Click (Selectors.submitSelector sel)])))"
  by (simp add: authenticate_def Let_def continueBtn truthy_bool_def del: await.simps split: option.splits)



lemma accept_run: "snd (authenticate accept auth w) = Inr w"
  unfolding authenticate_fold Let_def detector_fold foldl_append[symmetric] by (rule accept_foldl)





text \<open>
  C9. Whatever the page does and in whatever world the run starts, the calls that take
  a timeout are an initial segment of: navigation with 30000 ms, the wait for the email
  field with 10000 ms, with multiStep the wait for the password field with 10000 ms,
  and the detector's wait with 15000 ms. The timeouts are constants of the flow: no
  outcome of an earlier call, and no time spent in it, changes a later one. A run that
  succeeds by the selector or the URL strategy was given exactly these timeouts.
\<close>

theorem per_step_timeouts:
  assumes "sel = resolveSelectors auth" and "run = authenticate page auth w"
  shows
  "\<exists>d. (d = WaitForSelector (Selectors.successSelector sel) 15000 None \<or>
         (\<exists>p. d = WaitForURL (urlPredicate p) 15000)) \<and>
        prefix (filter (\<lambda>c. call_timeout c \<noteq> None) (calls run))
          ([Goto (loginUrl auth) NetworkIdle 30000,
            WaitForSelector (Selectors.emailSelector sel) 10000 None] @
           (if Selectors.multiStep sel = Some True
            then [WaitForSelector (Selectors.passwordSelector sel) 10000 (Some Visible)]
            else []) @
           [d]) \<and>
        prefix (List.map_filter call_timeout (calls run))
          ([30000, 10000] @ (if Selectors.multiStep sel = Some True then [10000] else []) @
           [15000]) \<and>
        (\<forall>w'. snd run = Inr w' \<and>
              (truthy (Selectors.successSelector sel) \<or> truthy (Selectors.successUrlPattern sel)) \<longrightarrow>
           List.map_filter call_timeout (calls run) =
             [30000, 10000] @ (if Selectors.multiStep sel = Some True then [10000] else []) @
             [15000])"
proof -
  define d0 where "d0 =
    (if truthy (Selectors.successSelector sel)
     then WaitForSelector (Selectors.successSelector sel) 15000 None
     else if truthy (Selectors.successUrlPattern sel)
       then WaitForURL (urlPredicate (or_string (Selectors.successUrlPattern sel) [])) 15000
       else WaitForTimeout 5000)"
  define cs where "cs =
    [Goto (loginUrl auth) NetworkIdle 30000,
     WaitForSelector (Selectors.emailSelector sel) 10000 None,
     Fill (Selectors.emailSelector sel) (email auth)] @
    (if Selectors.multiStep sel = Some True then
       [Click (case Selectors.continueSelector sel of
                 Some c \<Rightarrow> Some c | None \<Rightarrow> Selectors.submitSelector sel),
        WaitForSelector (Selectors.passwordSelector sel) 10000 (Some Visible)]
     else []) @
    [Fill (Selectors.passwordSelector sel) (password auth),
     Click (Selectors.submitSelector sel)]"
  define d where "d =
    (if truthy (Selectors.successSelector sel) \<or> truthy (Selectors.successUrlPattern sel)
     then d0 else WaitForSelector (Selectors.successSelector sel) 15000 None)"
  let ?timed = "\<lambda>c. call_timeout c \<noteq> None"
  let ?target = "[Goto (loginUrl auth) NetworkIdle 30000,
            WaitForSelector (Selectors.emailSelector sel) 10000 None] @
           (if Selectors.multiStep sel = Some True
            then [WaitForSelector (Selectors.passwordSelector sel) 10000 (Some Visible)]
            else []) @
           [d]"
  have run: "run = foldl (await page) ([], Inr w) (cs @ [d0])"
    unfolding assms authenticate_fold Let_def detector_fold foldl_append[symmetric] cs_def d0_def
    by (rule refl)
  have shape: "d = WaitForSelector (Selectors.successSelector sel) 15000 None \<or>
         (\<exists>p. d = WaitForURL (urlPredicate p) 15000)"
    by (auto simp: d_def d0_def)
  have "prefix (calls run) (cs @ [d0])"
    using calls_foldl_prefix [of page "([], Inr w)" "cs @ [d0]"] by (simp add: run calls_def)
  then have "prefix (filter ?timed (calls run)) (filter ?timed (cs @ [d0]))"
    by (rule filter_mono_prefix)
  moreover have "prefix (filter ?timed (cs @ [d0])) ?target"
    by (auto simp: cs_def d_def d0_def)
  ultimately have labelled: "prefix (filter ?timed (calls run)) ?target"
    by (rule prefix_order.trans)
  then have "prefix (map (the \<circ> call_timeout) (filter ?timed (calls run)))
               (map (the \<circ> call_timeout) ?target)"
    by (rule map_mono_prefix)
  then have numbers: "prefix (List.map_filter call_timeout (calls run))
          ([30000, 10000] @ (if Selectors.multiStep sel = Some True then [10000] else []) @
           [15000])"
    using shape by (auto simp: map_filter_def)
  have exact: "List.map_filter call_timeout (calls run) =
             [30000, 10000] @ (if Selectors.multiStep sel = Some True then [10000] else []) @
             [15000]"
    if "snd run = Inr w'"
       "truthy (Selectors.successSelector sel) \<or> truthy (Selectors.successUrlPattern sel)" for w'
  proof -
    have "calls run = cs @ [d0]"
      using calls_foldl_success [of page "([], Inr w)" "cs @ [d0]" w'] that(1)
      by (simp add: run calls_def)
    then show ?thesis
      using that(2) by (auto simp: map_filter_def cs_def d0_def)
  qed
  show ?thesis
    using shape labelled numbers exact by blast
qed

text \<open>The clerk preset on a page where every call resolves.\<close>

theorem per_step_timeouts_witness:
  "Selectors.multiStep (resolveSelectors (bare (Some ''clerk''))) = Some True \<and>
   snd (authenticate (accept :: (unit, unit) driver) (bare (Some ''clerk'')) ()) = Inr () \<and>
   List.map_filter call_timeout
     (calls (authenticate (accept :: (unit, unit) driver) (bare (Some ''clerk'')) ())) =
     [30000, 10000, 10000, 15000]"
proof -
  have ok: "snd (authenticate (accept :: (unit, unit) driver) (bare (Some ''clerk'')) ()) = Inr ()"
    by (rule accept_run)
  show ?thesis
    using per_step_timeouts
            [OF refl refl, of "bare (Some ''clerk'')" "accept :: (unit, unit) driver" "()"] ok
    by (auto simp: resolve_clerk truthy_def)
qed

text \<open>
  C10, at the preset name \<^verbatim>\<open>constructor\<close> with the form selectors overridden. The
  resolved URL pattern is undefined, not a non-empty string, and on a page where every
  call resolves the flow ends in the five-second sleep: the fallback branch is reached
  from an object the resolver produced.
\<close>

theorem fallback_reached_from_resolver:
  "Selectors.successUrlPattern (resolveSelectors inherited_preset) = None \<and>
   Selectors.successSelector (resolveSelectors inherited_preset) = None \<and>
   authenticate (accept :: (unit, unit) driver) inherited_preset () =
     ([(Goto ''https://app.example.com/login'' NetworkIdle 30000, None),
       (WaitForSelector (Some ''#email'') 10000 None, None),
       (Fill (Some ''#email'') ''user@example.com'', None),
       (Fill (Some ''#password'') ''secret'', None),
       (Click (Some ''#submit''), None),
       (WaitForTimeout 5000, None)], Inr ())"
proof -
  have fields: "loginUrl inherited_preset = ''https://app.example.com/login''"
    "email inherited_preset = ''user@example.com''" "password inherited_preset = ''secret''"
    by (simp_all add: inherited_preset_def bare_def)
  show ?thesis
    by (simp add: authenticate_def Let_def resolve_inherited_preset fields
          waitForLoginSuccess_def truthy_def truthy_bool_def accept_def)
qed

end
